theory Spec2Isabelle
  imports Complex_Main
begin

section \<open>The virtual trackball of modelplane/gfx/trackball.py\<close>

text \<open>
  The module is embedded function by function. Conventions of the embedding:
  \<^item> a Python number (an int or a float) is a \<^typ>\<open>real\<close>: arithmetic is exact, so
    rounding, overflow to infinity and NaN are outside the model;
  \<^item> a Python list of numbers is a \<^typ>\<open>real list\<close>; reading an index that the list
    does not have raises \<open>IndexError\<close> in Python and is the value \<open>Inl IndexError\<close> here;
  \<^item> every function that can raise returns \<open>error + 'a\<close>, with \<open>Inl\<close> for the exception;
  \<^item> a method of \<open>Trackball\<close> takes the object as a record and returns the updated record;
  \<^item> the viewport that \<open>gl.glGetIntegerv(gl.GL_VIEWPORT)\<close> returns is a parameter, and the
    conversion of the matrix to an array of \<open>GLfloat\<close> is the identity;
  \<^item> a leading underscore of a Python name is dropped (\<open>_v_add\<close> is \<open>v_add\<close>), and the
    attribute \<open>self._zoom\<close> is the field \<open>tb_zoom\<close>.
\<close>

subsection \<open>Exceptions\<close>

datatype error = ZeroDivisionError | ValueError | IndexError

definition and_then :: "error + 'a \<Rightarrow> ('a \<Rightarrow> error + 'b) \<Rightarrow> error + 'b" where
  "and_then m f = (case m of Inl e \<Rightarrow> Inl e | Inr a \<Rightarrow> f a)"

text \<open>Float division \<open>a / b\<close>: raises \<open>ZeroDivisionError\<close> when \<open>b\<close> is zero.\<close>

definition py_div :: "real \<Rightarrow> real \<Rightarrow> error + real" where
  "py_div a b = (if b = 0 then Inl ZeroDivisionError else Inr (a / b))"

text \<open>\<open>math.sqrt\<close>: raises \<open>ValueError\<close> on a negative argument.\<close>

definition py_sqrt :: "real \<Rightarrow> error + real" where
  "py_sqrt a = (if a < 0 then Inl ValueError else Inr (sqrt a))"

text \<open>\<open>math.asin\<close>: raises \<open>ValueError\<close> outside \<open>[-1, 1]\<close>.\<close>

definition py_asin :: "real \<Rightarrow> error + real" where
  "py_asin a = (if a < -1 \<or> 1 < a then Inl ValueError else Inr (arcsin a))"

text \<open>\<open>math.fmod\<close>: the remainder that has the sign of \<open>a\<close>; \<open>ValueError\<close> when \<open>b\<close> is zero.\<close>

definition py_fmod :: "real \<Rightarrow> real \<Rightarrow> error + real" where
  "py_fmod a b =
     (if b = 0 then Inl ValueError
      else Inr (a - b * real_of_int (if 0 \<le> a / b then \<lfloor>a / b\<rfloor> else \<lceil>a / b\<rceil>)))"

subsection \<open>Functions on vectors\<close>

definition v_add :: "real list \<Rightarrow> real list \<Rightarrow> error + real list" where
  "v_add v1 v2 =
     (if length v1 < 3 \<or> length v2 < 3 then Inl IndexError
      else Inr [v1 ! 0 + v2 ! 0, v1 ! 1 + v2 ! 1, v1 ! 2 + v2 ! 2])"

definition v_sub :: "real list \<Rightarrow> real list \<Rightarrow> error + real list" where
  "v_sub v1 v2 =
     (if length v1 < 3 \<or> length v2 < 3 then Inl IndexError
      else Inr [v1 ! 0 - v2 ! 0, v1 ! 1 - v2 ! 1, v1 ! 2 - v2 ! 2])"

definition v_mul :: "real list \<Rightarrow> real \<Rightarrow> error + real list" where
  "v_mul v s =
     (if length v < 3 then Inl IndexError
      else Inr [v ! 0 * s, v ! 1 * s, v ! 2 * s])"

definition v_dot :: "real list \<Rightarrow> real list \<Rightarrow> error + real" where
  "v_dot v1 v2 =
     (if length v1 < 3 \<or> length v2 < 3 then Inl IndexError
      else Inr (v1 ! 0 * v2 ! 0 + v1 ! 1 * v2 ! 1 + v1 ! 2 * v2 ! 2))"

definition v_cross :: "real list \<Rightarrow> real list \<Rightarrow> error + real list" where
  "v_cross v1 v2 =
     (if length v1 < 3 \<or> length v2 < 3 then Inl IndexError
      else Inr [(v1 ! 1 * v2 ! 2) - (v1 ! 2 * v2 ! 1),
                (v1 ! 2 * v2 ! 0) - (v1 ! 0 * v2 ! 2),
                (v1 ! 0 * v2 ! 1) - (v1 ! 1 * v2 ! 0)])"

definition v_length :: "real list \<Rightarrow> error + real" where
  "v_length v = and_then (v_dot v v) py_sqrt"

text \<open>
  \<open>try: return _v_mul(v, 1.0 / _v_length(v))  except ZeroDivisionError: return v\<close>.
  Only \<open>ZeroDivisionError\<close> is caught; any other exception passes.
\<close>

definition v_normalize :: "real list \<Rightarrow> error + real list" where
  "v_normalize v =
     (case and_then (v_length v) (\<lambda>l. and_then (py_div 1 l) (\<lambda>s. v_mul v s)) of
        Inl ZeroDivisionError \<Rightarrow> Inr v
      | r \<Rightarrow> r)"

subsection \<open>Functions on quaternions\<close>

definition q_add :: "real list \<Rightarrow> real list \<Rightarrow> error + real list" where
  "q_add q1 q2 =
     (if length q1 < 4 \<or> length q2 < 4 then Inl IndexError
      else
        and_then (v_mul q1 (q2 ! 3)) (\<lambda>t1.
        and_then (v_mul q2 (q1 ! 3)) (\<lambda>t2.
        and_then (v_cross q2 q1) (\<lambda>t3.
        and_then (v_add t1 t2) (\<lambda>tf.
        and_then (v_add t3 tf) (\<lambda>tf.
        and_then (v_dot q1 q2) (\<lambda>d.
        Inr (tf @ [q1 ! 3 * q2 ! 3 - d]))))))))"

definition q_mul :: "real list \<Rightarrow> real \<Rightarrow> error + real list" where
  "q_mul q s =
     (if length q < 4 then Inl IndexError
      else Inr [q ! 0 * s, q ! 1 * s, q ! 2 * s, q ! 3 * s])"

definition q_dot :: "real list \<Rightarrow> real list \<Rightarrow> error + real" where
  "q_dot q1 q2 =
     (if length q1 < 4 \<or> length q2 < 4 then Inl IndexError
      else Inr (q1 ! 0 * q2 ! 0 + q1 ! 1 * q2 ! 1 + q1 ! 2 * q2 ! 2 + q1 ! 3 * q2 ! 3))"

definition q_length :: "real list \<Rightarrow> error + real" where
  "q_length q = and_then (q_dot q q) py_sqrt"

definition q_normalize :: "real list \<Rightarrow> error + real list" where
  "q_normalize q =
     (case and_then (q_length q) (\<lambda>l. and_then (py_div 1 l) (\<lambda>s. q_mul q s)) of
        Inl ZeroDivisionError \<Rightarrow> Inr q
      | r \<Rightarrow> r)"

definition q_from_axis_angle :: "real list \<Rightarrow> real \<Rightarrow> error + real list" where
  "q_from_axis_angle v phi =
     and_then (v_normalize v) (\<lambda>n.
     and_then (v_mul n (sin (phi / 2))) (\<lambda>q.
     Inr (q @ [cos (phi / 2)])))"

text \<open>
  \<open>m = [0.0] * 16\<close>, then twelve assignments; \<open>m[2*4+3]\<close> is never assigned and keeps
  its \<open>0.0\<close>.
\<close>

definition q_rotmatrix :: "real list \<Rightarrow> error + real list" where
  "q_rotmatrix q =
     (if length q < 4 then Inl IndexError
      else Inr ((replicate 16 0)
        [0*4+0 := 1 - 2 * (q ! 1 * q ! 1 + q ! 2 * q ! 2),
         0*4+1 := 2 * (q ! 0 * q ! 1 - q ! 2 * q ! 3),
         0*4+2 := 2 * (q ! 2 * q ! 0 + q ! 1 * q ! 3),
         0*4+3 := 0,
         1*4+0 := 2 * (q ! 0 * q ! 1 + q ! 2 * q ! 3),
         1*4+1 := 1 - 2 * (q ! 2 * q ! 2 + q ! 0 * q ! 0),
         1*4+2 := 2 * (q ! 1 * q ! 2 - q ! 0 * q ! 3),
         1*4+3 := 0,
         2*4+0 := 2 * (q ! 2 * q ! 0 - q ! 1 * q ! 3),
         2*4+1 := 2 * (q ! 1 * q ! 2 + q ! 0 * q ! 3),
         2*4+2 := 1 - 2 * (q ! 1 * q ! 1 + q ! 0 * q ! 0),
         3*4+3 := 1]))"

subsection \<open>The class \<open>Trackball\<close>\<close>

text \<open>
  The attributes \<open>_rotation\<close>, \<open>_zoom\<close>, \<open>_distance\<close>, \<open>_count\<close>, \<open>_matrix\<close>,
  \<open>_theta\<close>, \<open>_phi\<close>, \<open>_x\<close> and \<open>_y\<close> of an instance. \<open>_matrix\<close> is \<open>None\<close> until
  the first call of \<open>_set_orientation\<close>. The attributes \<open>_RENORMCOUNT\<close> and
  \<open>_TRACKBALLSIZE\<close> are assigned once, by the constructor, and are constants here.
\<close>

record trackball =
  tb_rotation :: "real list"
  tb_zoom :: real
  tb_distance :: real
  tb_count :: int
  tb_matrix :: "real list option"
  tb_theta :: real
  tb_phi :: real
  tb_x :: real
  tb_y :: real

definition RENORMCOUNT :: int where
  "RENORMCOUNT = 97"

definition TRACKBALLSIZE :: real where
  "TRACKBALLSIZE = 0.8"

text \<open>The viewport \<open>(x, y, width, height)\<close>, four integers, as OpenGL returns it.\<close>

type_synonym viewport = "int \<times> int \<times> int \<times> int"

definition vp_width :: "viewport \<Rightarrow> real" where
  "vp_width vp = (case vp of (_, _, w, _) \<Rightarrow> real_of_int w)"

definition vp_height :: "viewport \<Rightarrow> real" where
  "vp_height vp = (case vp of (_, _, _, h) \<Rightarrow> real_of_int h)"

definition set_orientation :: "real \<Rightarrow> real \<Rightarrow> trackball \<Rightarrow> error + trackball" where
  "set_orientation theta phi self =
     (let self = self\<lparr>tb_theta := theta, tb_phi := phi\<rparr>;
          angle = tb_theta self * (pi / 180);
          sine = sin (0.5 * angle);
          xrot = [1 * sine, 0, 0, cos (0.5 * angle)];
          angle = tb_phi self * (pi / 180);
          sine = sin (0.5 * angle);
          zrot = [0, 0, sine, cos (0.5 * angle)]
      in and_then (q_add xrot zrot) (\<lambda>r.
         and_then (q_rotmatrix r) (\<lambda>m.
         Inr (self\<lparr>tb_rotation := r, tb_matrix := Some m\<rparr>))))"

text \<open>
  \<open>Trackball.__init__(theta=0, phi=0, zoom=1, distance=3)\<close>. The pan offsets \<open>_x\<close> and
  \<open>_y\<close> are assigned last; before that the attributes do not exist.
\<close>

definition init :: "real \<Rightarrow> real \<Rightarrow> real \<Rightarrow> real \<Rightarrow> error + trackball" where
  "init theta phi zoom distance =
     and_then
       (set_orientation theta phi
          \<lparr>tb_rotation = [0, 0, 0, 1], tb_zoom = zoom, tb_distance = distance, tb_count = 0,
           tb_matrix = None, tb_theta = theta, tb_phi = phi, tb_x = 0, tb_y = 0\<rparr>)
       (\<lambda>self. Inr (self\<lparr>tb_x := 0, tb_y := 0\<rparr>))"

text \<open>The two literals of \<open>_project\<close>, as they are written in the source.\<close>

definition SQRT1_2 :: real where
  "SQRT1_2 = 0.70710678118654752440"

definition SQRT2 :: real where
  "SQRT2 = 1.41421356237309504880"

definition project :: "real \<Rightarrow> real \<Rightarrow> real \<Rightarrow> error + real" where
  "project r x y =
     and_then (py_sqrt (x * x + y * y)) (\<lambda>d.
       if d < r * SQRT1_2 then py_sqrt (r * r - d * d)
       else (let t = r / SQRT2 in py_div (t * t) d))"

text \<open>\<open>Trackball._rotate\<close>; the name \<open>rotate\<close> is taken by a function on lists.\<close>

definition rotate_tb :: "real \<Rightarrow> real \<Rightarrow> real \<Rightarrow> real \<Rightarrow> error + real list" where
  "rotate_tb x y dx dy =
     (if dx = 0 \<and> dy = 0 then Inr [0, 0, 0, 1]
      else
        and_then (project TRACKBALLSIZE x y) (\<lambda>z.
        let last = [x, y, z] in
        and_then (project TRACKBALLSIZE (x + dx) (y + dy)) (\<lambda>z.
        let new = [x + dx, y + dy, z] in
        and_then (v_cross new last) (\<lambda>a.
        and_then (v_sub last new) (\<lambda>d.
        and_then (v_length d) (\<lambda>l.
        and_then (py_div l (2 * TRACKBALLSIZE)) (\<lambda>t.
        let t = (if t > 1 then 1 else t);
            t = (if t < -1 then -1 else t)
        in and_then (py_asin t) (\<lambda>as.
           q_from_axis_angle a (2 * as)))))))))"

text \<open>\<open>self._rotation[2] = 0.0\<close>: \<open>IndexError\<close> when the list has no index 2.\<close>

definition set_index2 :: "real list \<Rightarrow> real \<Rightarrow> error + real list" where
  "set_index2 q v = (if length q < 3 then Inl IndexError else Inr (q[2 := v]))"

definition drag_to :: "viewport \<Rightarrow> real \<Rightarrow> real \<Rightarrow> real \<Rightarrow> real \<Rightarrow> trackball \<Rightarrow> error + trackball" where
  "drag_to viewport x y dx dy self =
     (let width = vp_width viewport; height = vp_height viewport in
      and_then (py_div (x * 2 - width) width) (\<lambda>x.
      and_then (py_div (2 * dx) width) (\<lambda>dx.
      and_then (py_div (y * 2 - height) height) (\<lambda>y.
      and_then (py_div (2 * dy) height) (\<lambda>dy.
      and_then (rotate_tb x y dx dy) (\<lambda>q.
      and_then (q_add q (tb_rotation self)) (\<lambda>r.
      and_then (set_index2 r 0) (\<lambda>r.
      let c = tb_count self + 1 in
      and_then (if c > RENORMCOUNT
                then and_then (q_normalize r) (\<lambda>r. Inr (r, 0))
                else Inr (r, c)) (\<lambda>(r, c).
      and_then (q_rotmatrix r) (\<lambda>m.
      Inr (self\<lparr>tb_rotation := r, tb_count := c, tb_matrix := Some m\<rparr>)))))))))))"

text \<open>The setter of the property \<open>zoom\<close>.\<close>

definition set_zoom :: "real \<Rightarrow> trackball \<Rightarrow> trackball" where
  "set_zoom zoom self =
     (let self = self\<lparr>tb_zoom := zoom\<rparr>;
          self = (if tb_zoom self < 0.25 then self\<lparr>tb_zoom := 0.25\<rparr> else self);
          self = (if tb_zoom self > 10 then self\<lparr>tb_zoom := 10\<rparr> else self)
      in self)"

text \<open>The setter of the property \<open>distance\<close>.\<close>

definition set_distance :: "real \<Rightarrow> trackball \<Rightarrow> trackball" where
  "set_distance distance self =
     (let self = self\<lparr>tb_distance := distance\<rparr>;
          self = (if tb_distance self < 1 then self\<lparr>tb_distance := 1\<rparr> else self)
      in self)"

definition zoom_to :: "viewport \<Rightarrow> real \<Rightarrow> real \<Rightarrow> real \<Rightarrow> real \<Rightarrow> trackball \<Rightarrow> error + trackball" where
  "zoom_to viewport x y dx dy self =
     (let height = vp_height viewport in
      and_then (py_div (5 * dy) height) (\<lambda>d.
      Inr (set_zoom (tb_zoom self - d) self)))"

definition pan_to :: "real \<Rightarrow> real \<Rightarrow> real \<Rightarrow> real \<Rightarrow> trackball \<Rightarrow> trackball" where
  "pan_to x y dx dy self = self\<lparr>tb_x := tb_x self + dx * 0.1, tb_y := tb_y self + dy * 0.1\<rparr>"

definition get_orientation :: "trackball \<Rightarrow> error + real \<times> real" where
  "get_orientation self =
     (case tb_rotation self of
        [q0, q1, q2, q3] \<Rightarrow>
          and_then (py_div (2 * (q0 * q1 + q2 * q3)) (1 - 2 * (q1 * q1 + q2 * q2))) (\<lambda>a.
          let ax = arctan a * 180 / pi in
          and_then (py_div (2 * (q0 * q3 + q1 * q2)) (1 - 2 * (q2 * q2 + q3 * q3))) (\<lambda>a.
          let az = arctan a * 180 / pi in
          Inr (- az, ax)))
      | _ \<Rightarrow> Inl ValueError)"

text \<open>The getters of \<open>theta\<close> and \<open>phi\<close> store both angles and return one.\<close>

definition get_theta :: "trackball \<Rightarrow> error + real \<times> trackball" where
  "get_theta self =
     and_then (get_orientation self) (\<lambda>(t, p).
     let self = self\<lparr>tb_theta := t, tb_phi := p\<rparr> in Inr (tb_theta self, self))"

definition get_phi :: "trackball \<Rightarrow> error + real \<times> trackball" where
  "get_phi self =
     and_then (get_orientation self) (\<lambda>(t, p).
     let self = self\<lparr>tb_theta := t, tb_phi := p\<rparr> in Inr (tb_phi self, self))"

definition set_theta :: "real \<Rightarrow> trackball \<Rightarrow> error + trackball" where
  "set_theta theta self =
     and_then (py_fmod theta 360) (\<lambda>t.
     and_then (py_fmod (tb_phi self) 360) (\<lambda>p.
     set_orientation t p self))"

definition set_phi :: "real \<Rightarrow> trackball \<Rightarrow> error + trackball" where
  "set_phi phi self =
     and_then (py_fmod (tb_theta self) 360) (\<lambda>t.
     and_then (py_fmod phi 360) (\<lambda>p.
     set_orientation t p self))"

subsection \<open>Sequences of gestures\<close>

text \<open>
  A caller's sequence of \<open>drag_to\<close> calls, each with the viewport of its moment and its
  arguments \<open>(x, y, dx, dy)\<close>; the first exception ends the sequence.
\<close>

type_synonym gesture = "viewport \<times> real \<times> real \<times> real \<times> real"

fun drag_seq :: "gesture list \<Rightarrow> trackball \<Rightarrow> error + trackball" where
  "drag_seq [] self = Inr self"
| "drag_seq ((vp, x, y, dx, dy) # gs) self = and_then (drag_to vp x y dx dy self) (drag_seq gs)"

text \<open>The same for a sequence of \<open>zoom_to\<close> calls.\<close>

fun zoom_seq :: "gesture list \<Rightarrow> trackball \<Rightarrow> error + trackball" where
  "zoom_seq [] self = Inr self"
| "zoom_seq ((vp, x, y, dx, dy) # gs) self = and_then (zoom_to vp x y dx dy self) (zoom_seq gs)"

text \<open>What a caller reads from the result of a call: the rotation, the zoom, the distance.\<close>

definition rotation_of :: "error + trackball \<Rightarrow> error + real list" where
  "rotation_of r = map_sum id tb_rotation r"

definition zoom_of :: "error + trackball \<Rightarrow> error + real" where
  "zoom_of r = map_sum id tb_zoom r"

definition distance_of :: "error + trackball \<Rightarrow> error + real" where
  "distance_of r = map_sum id tb_distance r"

text \<open>The object that \<open>Trackball()\<close> builds from the default arguments.\<close>

definition tb_default :: trackball where
  "tb_default = \<lparr>tb_rotation = [0, 0, 0, 1], tb_zoom = 1, tb_distance = 3, tb_count = 0,
     tb_matrix = Some [1, 0, 0, 0,  0, 1, 0, 0,  0, 0, 1, 0,  0, 0, 0, 1],
     tb_theta = 0, tb_phi = 0, tb_x = 0, tb_y = 0\<rparr>"

section \<open>Basic facts\<close>

lemma len4: "length q = 4 \<Longrightarrow> \<exists>a b c d. q = [a, b, c, d]"
  by (auto simp: length_Suc_conv numeral_eq_Suc)


lemma and_then_Inr [simp]: "and_then (Inr a) f = f a"
  by (simp add: and_then_def)

lemma and_then_Inl [simp]: "and_then (Inl e) f = Inl e"
  by (simp add: and_then_def)

lemma q_add_4: "q_add [a1, b1, c1, d1] [a2, b2, c2, d2] =
  Inr [(b2 * c1 - c2 * b1) + (a1 * d2 + a2 * d1),
       (c2 * a1 - a2 * c1) + (b1 * d2 + b2 * d1),
       (a2 * b1 - b2 * a1) + (c1 * d2 + c2 * d1),
       d1 * d2 - (a1 * a2 + b1 * b2 + c1 * c2)]"
  by (simp add: q_add_def v_mul_def v_cross_def v_add_def v_dot_def)

lemma sumsq4_nonneg: "\<not> (a * a + b * b + c * c + d * d < (0::real))"
  by (simp add: not_less)

lemma sumsq3_nonneg: "\<not> (a * a + b * b + c * c < (0::real))"
  by (simp add: not_less)

lemma q_length_4: "q_length [a, b, c, d] = Inr (sqrt (a * a + b * b + c * c + d * d))"
  by (simp add: q_length_def q_dot_def py_sqrt_def sumsq4_nonneg)

lemma v_length_3: "v_length [a, b, c] = Inr (sqrt (a * a + b * b + c * c))"
  by (simp add: v_length_def v_dot_def py_sqrt_def sumsq3_nonneg)

lemma q_normalize_4:
  "q_normalize [a, b, c, d] =
     (if sqrt (a * a + b * b + c * c + d * d) = 0 then Inr [a, b, c, d]
      else Inr [a * (1 / sqrt (a * a + b * b + c * c + d * d)),
                b * (1 / sqrt (a * a + b * b + c * c + d * d)),
                c * (1 / sqrt (a * a + b * b + c * c + d * d)),
                d * (1 / sqrt (a * a + b * b + c * c + d * d))])"
  by (simp add: q_normalize_def q_length_4 py_div_def q_mul_def)

lemma v_normalize_3:
  "v_normalize [a, b, c] =
     (if sqrt (a * a + b * b + c * c) = 0 then Inr [a, b, c]
      else Inr [a * (1 / sqrt (a * a + b * b + c * c)),
                b * (1 / sqrt (a * a + b * b + c * c)),
                c * (1 / sqrt (a * a + b * b + c * c))])"
  by (simp add: v_normalize_def v_length_3 py_div_def v_mul_def)

lemma scaled_sumsq4:
  fixes a b c d :: real
  assumes "sqrt (a * a + b * b + c * c + d * d) \<noteq> 0"
  shows "a * (1 / sqrt (a * a + b * b + c * c + d * d)) * (a * (1 / sqrt (a * a + b * b + c * c + d * d)))
       + b * (1 / sqrt (a * a + b * b + c * c + d * d)) * (b * (1 / sqrt (a * a + b * b + c * c + d * d)))
       + c * (1 / sqrt (a * a + b * b + c * c + d * d)) * (c * (1 / sqrt (a * a + b * b + c * c + d * d)))
       + d * (1 / sqrt (a * a + b * b + c * c + d * d)) * (d * (1 / sqrt (a * a + b * b + c * c + d * d))) = 1"
proof -
  define s where "s = a * a + b * b + c * c + d * d"
  define l where "l = sqrt s"
  have s0: "0 \<le> s" by (simp add: s_def)
  have ll: "l * l = s" using s0 by (simp add: l_def)
  have l0: "l \<noteq> 0" using assms by (simp add: l_def s_def)
  have "a * (1 / l) * (a * (1 / l)) + b * (1 / l) * (b * (1 / l))
      + c * (1 / l) * (c * (1 / l)) + d * (1 / l) * (d * (1 / l)) = s / (l * l)"
    using l0 by (simp add: s_def field_simps)
  also have "\<dots> = 1" using l0 by (simp add: ll [symmetric])
  finally show ?thesis by (simp add: l_def s_def)
qed


lemma q_rotmatrix_4:
  "q_rotmatrix [a, b, c, d] =
     Inr [1 - 2 * (b * b + c * c), 2 * (a * b - c * d), 2 * (c * a + b * d), 0,
          2 * (a * b + c * d), 1 - 2 * (c * c + a * a), 2 * (b * c - a * d), 0,
          2 * (c * a - b * d), 2 * (b * c + a * d), 1 - 2 * (b * b + a * a), 0,
          0, 0, 0, 1]"
  by (simp add: q_rotmatrix_def numeral_eq_Suc)

lemma q_rotmatrix_total: "length q = 4 \<Longrightarrow> \<exists>m. q_rotmatrix q = Inr m"
  by (simp add: q_rotmatrix_def)

lemma set_orientation_eq:
  "\<exists>m. set_orientation t p s =
     Inr (s\<lparr>tb_theta := t, tb_phi := p,
            tb_rotation := [sin (0.5 * (t * (pi / 180))) * cos (0.5 * (p * (pi / 180))),
                            sin (0.5 * (p * (pi / 180))) * sin (0.5 * (t * (pi / 180))),
                            sin (0.5 * (p * (pi / 180))) * cos (0.5 * (t * (pi / 180))),
                            cos (0.5 * (t * (pi / 180))) * cos (0.5 * (p * (pi / 180)))],
            tb_matrix := Some m\<rparr>)"
proof -
  define r where "r = [sin (0.5 * (t * (pi / 180))) * cos (0.5 * (p * (pi / 180))),
                            sin (0.5 * (p * (pi / 180))) * sin (0.5 * (t * (pi / 180))),
                            sin (0.5 * (p * (pi / 180))) * cos (0.5 * (t * (pi / 180))),
                            cos (0.5 * (t * (pi / 180))) * cos (0.5 * (p * (pi / 180)))]"
  have a: "q_add [1 * sin (0.5 * (t * (pi / 180))), 0, 0, cos (0.5 * (t * (pi / 180)))]
             [0, 0, sin (0.5 * (p * (pi / 180))), cos (0.5 * (p * (pi / 180)))] = Inr r"
    by (simp add: q_add_4 r_def)
  have "length r = 4" by (simp add: r_def)
  then obtain m where m: "q_rotmatrix r = Inr m"
    using q_rotmatrix_total by blast
  have "set_orientation t p s =
          Inr (s\<lparr>tb_theta := t, tb_phi := p, tb_rotation := r, tb_matrix := Some m\<rparr>)"
    using a m by (simp add: set_orientation_def Let_def)
  then show ?thesis
    unfolding r_def by blast
qed

lemma init_eq:
  "\<exists>m. init t p z d =
     Inr \<lparr>tb_rotation = [sin (0.5 * (t * (pi / 180))) * cos (0.5 * (p * (pi / 180))),
                          sin (0.5 * (p * (pi / 180))) * sin (0.5 * (t * (pi / 180))),
                          sin (0.5 * (p * (pi / 180))) * cos (0.5 * (t * (pi / 180))),
                          cos (0.5 * (t * (pi / 180))) * cos (0.5 * (p * (pi / 180)))],
          tb_zoom = z, tb_distance = d, tb_count = 0, tb_matrix = Some m,
          tb_theta = t, tb_phi = p, tb_x = 0, tb_y = 0\<rparr>"
proof -
  let ?s = "\<lparr>tb_rotation = [0, 0, 0, 1], tb_zoom = z, tb_distance = d, tb_count = 0,
           tb_matrix = None, tb_theta = t, tb_phi = p, tb_x = 0, tb_y = 0\<rparr>"
  obtain m where "set_orientation t p ?s =
     Inr (?s\<lparr>tb_theta := t, tb_phi := p,
            tb_rotation := [sin (0.5 * (t * (pi / 180))) * cos (0.5 * (p * (pi / 180))),
                            sin (0.5 * (p * (pi / 180))) * sin (0.5 * (t * (pi / 180))),
                            sin (0.5 * (p * (pi / 180))) * cos (0.5 * (t * (pi / 180))),
                            cos (0.5 * (t * (pi / 180))) * cos (0.5 * (p * (pi / 180)))],
            tb_matrix := Some m\<rparr>)"
    using set_orientation_eq [of t p ?s] by blast
  then have "init t p z d =
     Inr \<lparr>tb_rotation = [sin (0.5 * (t * (pi / 180))) * cos (0.5 * (p * (pi / 180))),
                          sin (0.5 * (p * (pi / 180))) * sin (0.5 * (t * (pi / 180))),
                          sin (0.5 * (p * (pi / 180))) * cos (0.5 * (t * (pi / 180))),
                          cos (0.5 * (t * (pi / 180))) * cos (0.5 * (p * (pi / 180)))],
          tb_zoom = z, tb_distance = d, tb_count = 0, tb_matrix = Some m,
          tb_theta = t, tb_phi = p, tb_x = 0, tb_y = 0\<rparr>"
    by (simp add: init_def)
  then show ?thesis by blast
qed

lemma init_default: "init 0 0 1 3 = Inr tb_default"
  by (simp add: init_def set_orientation_def Let_def q_add_4 q_rotmatrix_4 tb_default_def)

lemma init_stores: "\<exists>s. init t p z d = Inr s \<and> tb_zoom s = z \<and> tb_distance s = d"
  using init_eq [of t p z d] by auto

section \<open>The projection onto the deformed sphere\<close>

lemma SQRT2_lower: "SQRT2 < sqrt 2"
  unfolding SQRT2_def by (rule real_less_rsqrt) (simp add: power2_eq_square)

lemma SQRT2_upper: "sqrt 2 < SQRT2 + 1 / 10 ^ 20"
  unfolding SQRT2_def by (rule real_less_lsqrt) (simp_all add: power2_eq_square)

lemma SQRT1_2_lower: "SQRT1_2 < 1 / sqrt 2"
proof -
  have "SQRT1_2 * 2 < sqrt 2"
    unfolding SQRT1_2_def by (rule real_less_rsqrt) (simp add: power2_eq_square)
  moreover have "1 / sqrt 2 = sqrt 2 / 2"
    by (simp add: real_div_sqrt)
  ultimately show ?thesis by simp
qed

lemma SQRT1_2_upper: "1 / sqrt 2 < SQRT1_2 + 1 / 10 ^ 20"
proof -
  have "sqrt 2 < (SQRT1_2 + 1 / 10 ^ 20) * 2"
    unfolding SQRT1_2_def by (rule real_less_lsqrt) (simp_all add: power2_eq_square)
  moreover have "1 / sqrt 2 = sqrt 2 / 2"
    by (simp add: real_div_sqrt)
  ultimately show ?thesis by simp
qed

lemma project_pos:
  assumes "0 < r"
  shows "project r x y =
     Inr (if sqrt (x * x + y * y) < r * SQRT1_2 then sqrt (r * r - (x * x + y * y))
          else (r / SQRT2) * (r / SQRT2) / sqrt (x * x + y * y))"
proof -
  define d where "d = sqrt (x * x + y * y)"
  have d0: "0 \<le> d" by (simp add: d_def)
  have dd: "d * d = x * x + y * y" by (simp add: d_def)
  have s: "py_sqrt (x * x + y * y) = Inr d"
    by (simp add: py_sqrt_def d_def not_less)
  show ?thesis
  proof (cases "d < r * SQRT1_2")
    case True
    have "r * SQRT1_2 \<le> r" using assms by (simp add: SQRT1_2_def)
    then have "d \<le> r" using True by simp
    then have "d * d \<le> r * r" using d0 by (simp add: mult_mono)
    then have "\<not> r * r - d * d < 0" by simp
    then show ?thesis
      using True s by (simp add: project_def py_sqrt_def dd flip: d_def)
  next
    case False
    have "0 < r * SQRT1_2" using assms by (simp add: SQRT1_2_def)
    then have "d \<noteq> 0" using False by simp
    then show ?thesis
      using False s by (simp add: project_def py_div_def Let_def flip: d_def)
  qed
qed

text \<open>
  Claim C5. For every point \<open>(x, y)\<close> at planar distance \<open>d = sqrt (x * x + y * y)\<close> from
  the centre, \<open>_project\<close> with radius 0.8 returns \<open>sqrt (R\<^sup>2 - d\<^sup>2)\<close> when \<open>d\<close> is below
  \<open>R\<close> times the literal for \<open>1 / sqrt 2\<close>, and \<open>(R / c)\<^sup>2 / d\<close> otherwise, \<open>c\<close> being the
  literal for \<open>sqrt 2\<close>; the two literals of the source differ by less than \<open>1 / 10 ^ 20\<close> from
  \<open>1 / sqrt 2\<close> and \<open>sqrt 2\<close>. In particular \<open>_project(0.8, 0, 0)\<close> returns 0.8.
\<close>

theorem project_formula:
  "project 0.8 x y =
     Inr (if sqrt (x * x + y * y) < 0.8 * SQRT1_2 then sqrt (0.8 * 0.8 - (x * x + y * y))
          else (0.8 / SQRT2) * (0.8 / SQRT2) / sqrt (x * x + y * y)) \<and>
   \<bar>SQRT1_2 - 1 / sqrt 2\<bar> < 1 / 10 ^ 20 \<and>
   \<bar>SQRT2 - sqrt 2\<bar> < 1 / 10 ^ 20 \<and>
   project 0.8 0 0 = Inr 0.8"
proof -
  have a: "project 0.8 x y =
     Inr (if sqrt (x * x + y * y) < 0.8 * SQRT1_2 then sqrt (0.8 * 0.8 - (x * x + y * y))
          else (0.8 / SQRT2) * (0.8 / SQRT2) / sqrt (x * x + y * y))"
    by (rule project_pos) simp
  have b: "\<bar>SQRT1_2 - 1 / sqrt 2\<bar> < 1 / 10 ^ 20"
    using SQRT1_2_lower SQRT1_2_upper by linarith
  have c: "\<bar>SQRT2 - sqrt 2\<bar> < 1 / 10 ^ 20"
    using SQRT2_lower SQRT2_upper by linarith
  have "sqrt (0.8 * 0.8) = (0.8::real)"
    by (rule real_sqrt_unique) (simp_all add: power2_eq_square)
  then have d: "project 0.8 0 0 = Inr 0.8"
    using project_pos [of "0.8" 0 0] by (simp add: SQRT1_2_def)
  from a b c d show ?thesis by blast
qed

section \<open>Facts about a drag\<close>

lemma q_add_total:
  "length q1 = 4 \<Longrightarrow> length q2 = 4 \<Longrightarrow> \<exists>r. q_add q1 q2 = Inr r \<and> length r = 4"
  by (simp add: q_add_def v_mul_def v_cross_def v_add_def v_dot_def)

lemma q_from_axis_angle_total:
  "\<exists>q. q_from_axis_angle [a, b, c] phi = Inr q \<and> length q = 4"
  by (simp add: q_from_axis_angle_def v_normalize_3 v_mul_def)

lemma project_total: "\<exists>z. project TRACKBALLSIZE x y = Inr z"
  by (simp add: TRACKBALLSIZE_def project_pos)

lemma and_then_assoc: "and_then (and_then m f) g = and_then m (\<lambda>a. and_then (f a) g)"
  by (cases m) simp_all

lemma rotate_tail:
  "\<exists>q. (let t = (if t > 1 then 1 else t); t = (if t < -1 then -1 else t)
        in and_then (py_asin t) (\<lambda>as. q_from_axis_angle [a, b, c] (2 * as))) = Inr q \<and>
       length q = 4"
  by (simp add: Let_def py_asin_def q_from_axis_angle_total)

lemma rotate_total: "\<exists>q. rotate_tb x y dx dy = Inr q \<and> length q = 4"
proof (cases "dx = 0 \<and> dy = 0")
  case True
  then show ?thesis by (simp add: rotate_tb_def)
next
  case False
  obtain z1 where z1: "project TRACKBALLSIZE x y = Inr z1"
    using project_total by blast
  obtain z2 where z2: "project TRACKBALLSIZE (x + dx) (y + dy) = Inr z2"
    using project_total by blast
  have ne: "2 * TRACKBALLSIZE \<noteq> 0"
    by (simp add: TRACKBALLSIZE_def)
  have "rotate_tb x y dx dy =
     (let t = sqrt ((x - (x + dx)) * (x - (x + dx)) + (y - (y + dy)) * (y - (y + dy))
                + (z1 - z2) * (z1 - z2)) / (2 * TRACKBALLSIZE);
          t = (if t > 1 then 1 else t); t = (if t < -1 then -1 else t)
      in and_then (py_asin t) (\<lambda>as. q_from_axis_angle
           [(y + dy) * z1 - z2 * y, z2 * x - (x + dx) * z1, (x + dx) * y - (y + dy) * x]
           (2 * as)))"
    using False ne
    by (auto simp add: rotate_tb_def Let_def z1 z2 v_cross_def v_sub_def v_length_3 py_div_def)
  then show ?thesis
    using rotate_tail by (simp add: Let_def)
qed

lemma drag_to_unfold:
  assumes "vp_width vp \<noteq> 0" and "vp_height vp \<noteq> 0" and "length (tb_rotation s) = 4"
  shows "\<exists>q a b c d.
     rotate_tb ((x * 2 - vp_width vp) / vp_width vp) ((y * 2 - vp_height vp) / vp_height vp)
            (2 * dx / vp_width vp) (2 * dy / vp_height vp) = Inr q \<and>
     q_add q (tb_rotation s) = Inr [a, b, c, d] \<and>
     drag_to vp x y dx dy s =
       (if tb_count s + 1 > RENORMCOUNT
        then and_then (q_normalize [a, b, 0, d]) (\<lambda>r.
             and_then (q_rotmatrix r) (\<lambda>m.
             Inr (s\<lparr>tb_rotation := r, tb_count := 0, tb_matrix := Some m\<rparr>)))
        else and_then (q_rotmatrix [a, b, 0, d]) (\<lambda>m.
             Inr (s\<lparr>tb_rotation := [a, b, 0, d], tb_count := tb_count s + 1,
                    tb_matrix := Some m\<rparr>)))"
proof -
  obtain q where q: "rotate_tb ((x * 2 - vp_width vp) / vp_width vp)
      ((y * 2 - vp_height vp) / vp_height vp)
      (2 * dx / vp_width vp) (2 * dy / vp_height vp) = Inr q" and lq: "length q = 4"
    using rotate_total by blast
  obtain r where r: "q_add q (tb_rotation s) = Inr r" and lr: "length r = 4"
    using q_add_total [OF lq assms(3)] by blast
  obtain a b c d where abcd: "r = [a, b, c, d]"
    using len4 [OF lr] by blast
  have "drag_to vp x y dx dy s =
       (if tb_count s + 1 > RENORMCOUNT
        then and_then (q_normalize [a, b, 0, d]) (\<lambda>r.
             and_then (q_rotmatrix r) (\<lambda>m.
             Inr (s\<lparr>tb_rotation := r, tb_count := 0, tb_matrix := Some m\<rparr>)))
        else and_then (q_rotmatrix [a, b, 0, d]) (\<lambda>m.
             Inr (s\<lparr>tb_rotation := [a, b, 0, d], tb_count := tb_count s + 1,
                    tb_matrix := Some m\<rparr>)))"
    using assms(1,2) q r
    by (simp add: drag_to_def Let_def py_div_def set_index2_def abcd and_then_assoc)
  then show ?thesis using q r abcd by blast
qed

lemma rotate_tb_idle: "rotate_tb x y 0 0 = Inr [0, 0, 0, 1]"
  by (simp add: rotate_tb_def)

lemma drag_to_idle:
  assumes "vp_width vp \<noteq> 0" and "vp_height vp \<noteq> 0" and "tb_rotation s = [a, b, c, d]"
  shows "drag_to vp x y 0 0 s =
       (if tb_count s + 1 > RENORMCOUNT
        then and_then (q_normalize [a, b, 0, d]) (\<lambda>r.
             and_then (q_rotmatrix r) (\<lambda>m.
             Inr (s\<lparr>tb_rotation := r, tb_count := 0, tb_matrix := Some m\<rparr>)))
        else and_then (q_rotmatrix [a, b, 0, d]) (\<lambda>m.
             Inr (s\<lparr>tb_rotation := [a, b, 0, d], tb_count := tb_count s + 1,
                    tb_matrix := Some m\<rparr>)))"
  using assms
  by (simp add: drag_to_def Let_def py_div_def rotate_tb_idle q_add_4 set_index2_def
      and_then_assoc)

lemma init_0_90:
  "\<exists>m. init 0 90 1 3 =
     Inr \<lparr>tb_rotation = [0, 0, sqrt 2 / 2, sqrt 2 / 2],
          tb_zoom = 1, tb_distance = 3, tb_count = 0, tb_matrix = Some m,
          tb_theta = 0, tb_phi = 90, tb_x = 0, tb_y = 0\<rparr>"
proof -
  have a: "0.5 * (90 * (pi / 180)) = pi / 4" by simp
  show ?thesis
    using init_eq [of 0 90 1 3] by (simp add: a sin_45 cos_45)
qed

lemma sqrt_eqI: "0 \<le> y \<Longrightarrow> y * y = x \<Longrightarrow> sqrt x = (y::real)"
  by (rule real_sqrt_unique) (simp_all add: power2_eq_square)

lemma project_example: "project TRACKBALLSIZE 0.48 0.1792 = Inr 0.6144"
proof -
  have a: "sqrt (0.48 * 0.48 + 0.1792 * 0.1792) < 0.8 * SQRT1_2"
    unfolding SQRT1_2_def by (rule real_less_lsqrt) (simp_all add: power2_eq_square)
  have b: "sqrt (0.8 * 0.8 - (0.48 * 0.48 + 0.1792 * 0.1792)) = (0.6144::real)"
    by (rule sqrt_eqI) simp_all
  have "(0::real) < 0.8" by simp
  from project_pos [OF this, of "0.48" "0.1792"]
  have "project 0.8 0.48 0.1792 = Inr (sqrt (0.8 * 0.8 - (0.48 * 0.48 + 0.1792 * 0.1792)))"
    using a by (simp only: if_True)
  then show ?thesis
    unfolding TRACKBALLSIZE_def by (simp only: b)
qed

lemma project_example': "project TRACKBALLSIZE (- 0.48) 0.1792 = Inr 0.6144"
proof -
  have "project TRACKBALLSIZE (- 0.48) 0.1792 = project TRACKBALLSIZE 0.48 0.1792"
    by (simp add: project_def)
  then show ?thesis by (simp only: project_example)
qed

lemma rotate_example: "rotate_tb 0.48 0.1792 (- 0.96) 0 = Inr [0, 0.576, - 0.168, 0.8]"
proof -
  have p1: "project (4 / 5) (12 / 25) (112 / 625) = Inr (384 / 625)"
    using project_example by (simp add: TRACKBALLSIZE_def)
  have p2: "project (4 / 5) (- (12 / 25)) (112 / 625) = Inr (384 / 625)"
    using project_example' by (simp add: TRACKBALLSIZE_def)
  have l: "sqrt (576 / 625) = (24 / 25 :: real)"
    by (rule sqrt_eqI) simp_all
  have n: "sqrt (147456 / 390625) = (384 / 625 :: real)"
    by (rule sqrt_eqI) simp_all
  have c: "cos (arcsin (3 / 5)) = (4 / 5 :: real)"
  proof -
    have "sqrt (1 - (3 / 5)\<^sup>2) = (4 / 5 :: real)"
      by (rule sqrt_eqI) (simp_all add: power2_eq_square)
    then show ?thesis by (simp add: cos_arcsin)
  qed
  have f: "q_from_axis_angle [0, 0.589824, - 0.172032] (2 * arcsin 0.6)
             = Inr [0, 0.576, - 0.168, 0.8]"
    by (simp add: q_from_axis_angle_def v_normalize_3 v_mul_def n c)
  have "rotate_tb 0.48 0.1792 (- 0.96) 0 =
          q_from_axis_angle [0, 0.589824, - 0.172032] (2 * arcsin 0.6)"
    by (simp add: rotate_tb_def p1 p2 Let_def v_cross_def v_sub_def v_length_3
        py_div_def py_asin_def TRACKBALLSIZE_def l)
  then show ?thesis by (simp only: f)
qed

lemma drag_example:
  assumes "tb_rotation s = [0, 0, 0, 1]" and "tb_count s + 1 \<le> RENORMCOUNT"
  shows "drag_to (0, 0, 1000, 1250) 740 737 (- 480) 0 s =
     Inr (s\<lparr>tb_rotation := [0, 0.576, 0, 0.8], tb_count := tb_count s + 1,
            tb_matrix := Some [0.336448, 0, 0.9216, 0,  0, 1, 0, 0,  - 0.9216, 0, 0.336448, 0,  0, 0, 0, 1]\<rparr>)"
proof -
  have r: "rotate_tb (12 / 25) (112 / 625) (- (24 / 25)) 0 = Inr [0, 72 / 125, - (21 / 125), 4 / 5]"
    using rotate_example by simp
  show ?thesis
    using assms
    by (simp add: drag_to_def Let_def py_div_def vp_width_def vp_height_def r q_add_4
        set_index2_def q_rotmatrix_4)
qed

lemma drag_seq_append:
  "drag_seq (gs @ hs) s = and_then (drag_seq gs s) (drag_seq hs)"
proof (induction gs arbitrary: s)
  case Nil
  then show ?case by simp
next
  case (Cons g gs)
  obtain vp x y dx dy where g: "g = (vp, x, y, dx, dy)"
    by (cases g) auto
  show ?case
    by (cases "drag_to vp x y dx dy s") (simp_all add: g Cons.IH)
qed

lemma drag_idle_default:
  assumes "0 \<le> c" and "c \<le> 97"
  shows "drag_to (0, 0, 1000, 1250) 500 625 0 0 (tb_default\<lparr>tb_count := c\<rparr>) =
     Inr (tb_default\<lparr>tb_count := (c + 1) mod 98\<rparr>)"
proof -
  have h: "vp_width (0, 0, 1000, 1250) \<noteq> 0" "vp_height (0, 0, 1000, 1250) \<noteq> 0"
    by (simp_all add: vp_width_def vp_height_def)
  have r: "tb_rotation (tb_default\<lparr>tb_count := c\<rparr>) = [0, 0, 0, 1]"
    by (simp add: tb_default_def)
  show ?thesis
  proof (cases "c = 97")
    case True
    then show ?thesis
      unfolding drag_to_idle [OF h r]
      by (simp add: q_normalize_4 q_rotmatrix_4 RENORMCOUNT_def tb_default_def)
  next
    case False
    then have "(c + 1) mod 98 = c + 1" using assms by simp
    then show ?thesis
      unfolding drag_to_idle [OF h r] using assms False
      by (simp add: q_rotmatrix_4 RENORMCOUNT_def tb_default_def)
  qed
qed

lemma drag_seq_idle:
  assumes "0 \<le> c" and "c \<le> 97"
  shows "drag_seq (replicate n ((0, 0, 1000, 1250), 500, 625, 0, 0)) (tb_default\<lparr>tb_count := c\<rparr>) =
     Inr (tb_default\<lparr>tb_count := (c + int n) mod 98\<rparr>)"
  using assms
proof (induction n arbitrary: c)
  case 0
  then show ?case by simp
next
  case (Suc n)
  have a: "0 \<le> (c + 1) mod 98" "(c + 1) mod 98 \<le> 97"
    by simp_all
  have "((c + 1) mod 98 + int n) mod 98 = (c + 1 + int n) mod 98"
    by (rule mod_add_left_eq)
  moreover have "c + 1 + int n = c + int (Suc n)"
    by simp
  ultimately have "((c + 1) mod 98 + int n) mod 98 = (c + int (Suc n)) mod 98"
    by (simp only:)
  then show ?case
    using Suc.IH [OF a] by (simp add: drag_idle_default [OF Suc.prems])
qed

lemma sumsq4_zero:
  fixes a b c d :: real
  assumes "sqrt (a * a + b * b + c * c + d * d) = 0"
  shows "a = 0 \<and> b = 0 \<and> c = 0 \<and> d = 0"
proof -
  have "a * a + b * b + c * c + d * d = 0"
    using assms by simp
  moreover have "0 \<le> a * a" "0 \<le> b * b" "0 \<le> c * c" "0 \<le> d * d"
    by simp_all
  ultimately have "a * a = 0 \<and> b * b = 0 \<and> c * c = 0 \<and> d * d = 0"
    by linarith
  then show ?thesis by simp
qed

lemma q_normalize_unit_or_zero:
  "\<exists>r. q_normalize [a, b, c, d] = Inr r \<and> length r = 4 \<and>
       (q_length r = Inr 1 \<or> r = [0, 0, 0, 0])"
proof (cases "sqrt (a * a + b * b + c * c + d * d) = 0")
  case True
  then show ?thesis
    using sumsq4_zero [OF True] by (simp add: q_normalize_4)
next
  case False
  then show ?thesis
    using scaled_sumsq4 [OF False] by (simp add: q_normalize_4 q_length_4)
qed

lemma drag_to_step:
  assumes "vp_width vp \<noteq> 0" and "vp_height vp \<noteq> 0" and "length (tb_rotation s) = 4"
  shows "\<exists>s'. drag_to vp x y dx dy s = Inr s' \<and> length (tb_rotation s') = 4 \<and>
     tb_count s' = (if tb_count s + 1 > RENORMCOUNT then 0 else tb_count s + 1) \<and>
     (tb_count s + 1 > RENORMCOUNT \<longrightarrow>
        q_length (tb_rotation s') = Inr 1 \<or> tb_rotation s' = [0, 0, 0, 0])"
proof -
  obtain q a b c d where
    u: "drag_to vp x y dx dy s =
       (if tb_count s + 1 > RENORMCOUNT
        then and_then (q_normalize [a, b, 0, d]) (\<lambda>r.
             and_then (q_rotmatrix r) (\<lambda>m.
             Inr (s\<lparr>tb_rotation := r, tb_count := 0, tb_matrix := Some m\<rparr>)))
        else and_then (q_rotmatrix [a, b, 0, d]) (\<lambda>m.
             Inr (s\<lparr>tb_rotation := [a, b, 0, d], tb_count := tb_count s + 1,
                    tb_matrix := Some m\<rparr>)))"
    using drag_to_unfold [OF assms, of x y dx dy] by blast
  obtain r where r: "q_normalize [a, b, 0, d] = Inr r" "length r = 4"
      "q_length r = Inr 1 \<or> r = [0, 0, 0, 0]"
    using q_normalize_unit_or_zero [of a b 0 d] by blast
  obtain m where m: "q_rotmatrix r = Inr m"
    using q_rotmatrix_total [OF r(2)] by blast
  show ?thesis
    unfolding u using r m by (simp add: q_rotmatrix_4)
qed

lemma drag_seq_count:
  assumes "\<forall>g\<in>set gs. vp_width (fst g) \<noteq> 0 \<and> vp_height (fst g) \<noteq> 0"
    and "length (tb_rotation s) = 4"
    and "tb_count s + int (length gs) \<le> RENORMCOUNT"
  shows "\<exists>s'. drag_seq gs s = Inr s' \<and> tb_count s' = tb_count s + int (length gs) \<and>
     length (tb_rotation s') = 4"
  using assms
proof (induction gs arbitrary: s)
  case Nil
  then show ?case by simp
next
  case (Cons g gs)
  obtain vp x y dx dy where g: "g = (vp, x, y, dx, dy)"
    by (cases g) auto
  have h: "vp_width vp \<noteq> 0" "vp_height vp \<noteq> 0"
    using Cons.prems(1) g by simp_all
  have le: "tb_count s + 1 \<le> RENORMCOUNT"
    using Cons.prems(3) by simp
  obtain s1 where s1: "drag_to vp x y dx dy s = Inr s1" "length (tb_rotation s1) = 4"
      "tb_count s1 = tb_count s + 1"
    using drag_to_step [OF h Cons.prems(2), of x y dx dy] le by auto
  have "\<exists>s'. drag_seq gs s1 = Inr s' \<and> tb_count s' = tb_count s1 + int (length gs) \<and>
     length (tb_rotation s') = 4"
    using Cons.prems(1,3) s1 by (intro Cons.IH) simp_all
  then show ?case
    using s1 by (auto simp add: g algebra_simps)
qed

lemma drag_seq_98:
  assumes "\<forall>g\<in>set gs. vp_width (fst g) \<noteq> 0 \<and> vp_height (fst g) \<noteq> 0"
    and "length gs = 98" and "tb_count s = 0" and "length (tb_rotation s) = 4"
  shows "\<exists>s'. drag_seq gs s = Inr s' \<and> tb_count s' = 0 \<and>
     (q_length (tb_rotation s') = Inr 1 \<or> tb_rotation s' = [0, 0, 0, 0])"
proof -
  have lt: "97 < length gs"
    using assms(2) by simp
  have t: "take (Suc 97) gs = take 97 gs @ [gs ! 97]"
    by (rule take_Suc_conv_app_nth [OF lt])
  have "length gs \<le> Suc 97"
    using assms(2) by simp
  then have "take (Suc 97) gs = gs"
    by (rule take_all)
  then have split: "gs = take 97 gs @ [gs ! 97]"
    using t by (simp only:)
  obtain vp x y dx dy where g: "gs ! 97 = (vp, x, y, dx, dy)"
    by (cases "gs ! 97") auto
  have "gs ! 97 \<in> set gs" using assms(2) by simp
  then have h: "vp_width vp \<noteq> 0" "vp_height vp \<noteq> 0"
    using assms(1) g by force+
  have a: "\<forall>g\<in>set (take 97 gs). vp_width (fst g) \<noteq> 0 \<and> vp_height (fst g) \<noteq> 0"
    using assms(1) by (meson in_set_takeD)
  have "tb_count s + int (length (take 97 gs)) \<le> RENORMCOUNT"
    using assms(2,3) by (simp add: RENORMCOUNT_def)
  then obtain s1 where s1: "drag_seq (take 97 gs) s = Inr s1" "tb_count s1 = 97"
      "length (tb_rotation s1) = 4"
    using drag_seq_count [OF a assms(4)] assms(2,3) by auto
  obtain s' where s': "drag_to vp x y dx dy s1 = Inr s'" "tb_count s' = 0"
      "q_length (tb_rotation s') = Inr 1 \<or> tb_rotation s' = [0, 0, 0, 0]"
    using drag_to_step [OF h s1(3), of x y dx dy] s1(2) by (auto simp: RENORMCOUNT_def)
  have "drag_seq gs s = Inr s'"
    by (subst split) (simp add: drag_seq_append s1 g s')
  then show ?thesis using s' by blast
qed

section \<open>The quaternion operations\<close>

text \<open>
  Claim C8. For every quaternion \<open>q\<close> (a list of four numbers), composing with the
  identity quaternion \<open>(0, 0, 0, 1)\<close> on either side returns \<open>q\<close>:
  \<open>add(identity, q) = q\<close> and \<open>add(q, identity) = q\<close>.
\<close>

theorem q_add_identity:
  "length q = 4 \<Longrightarrow> q_add [0, 0, 0, 1] q = Inr q \<and> q_add q [0, 0, 0, 1] = Inr q"
proof -
  assume "length q = 4"
  then obtain a b c d where q: "q = [a, b, c, d]"
    using len4 by blast
  show ?thesis
    unfolding q by (simp add: q_add_4)
qed

theorem q_add_identity_witness:
  "length [1, 2, 3, 4 :: real] = 4 \<and> q_add [0, 0, 0, 1] [1, 2, 3, 4] = Inr [1, 2, 3, 4]
     \<and> q_add [1, 2, 3, 4] [0, 0, 0, 1] = Inr [1, 2, 3, 4]"
  using q_add_identity [of "[1, 2, 3, 4]"] by simp



section \<open>Zoom and distance\<close>

lemma set_zoom_eq: "set_zoom z s = s\<lparr>tb_zoom := max 0.25 (min 10 z)\<rparr>"
  by (simp add: set_zoom_def Let_def max_def min_def)

lemma zoom_to_eq:
  "vp_height vp \<noteq> 0 \<Longrightarrow>
   zoom_to vp x y dx dy s = Inr (s\<lparr>tb_zoom := max 0.25 (min 10 (tb_zoom s - 5 * dy / vp_height vp))\<rparr>)"
  by (simp add: zoom_to_def py_div_def Let_def set_zoom_eq)

lemma zoom_seq_range:
  "\<forall>g\<in>set gs. vp_height (fst g) \<noteq> 0 \<Longrightarrow> 0.25 \<le> tb_zoom s \<Longrightarrow> tb_zoom s \<le> 10 \<Longrightarrow>
   \<exists>s'. zoom_seq gs s = Inr s' \<and> 0.25 \<le> tb_zoom s' \<and> tb_zoom s' \<le> 10"
proof (induction gs arbitrary: s)
  case Nil
  then show ?case by simp
next
  case (Cons g gs)
  obtain vp x y dx dy where g: "g = (vp, x, y, dx, dy)"
    by (cases g) auto
  have h: "vp_height vp \<noteq> 0" using Cons.prems(1) g by simp
  let ?s = "s\<lparr>tb_zoom := max 0.25 (min 10 (tb_zoom s - 5 * dy / vp_height vp))\<rparr>"
  have "\<exists>s'. zoom_seq gs ?s = Inr s' \<and> 0.25 \<le> tb_zoom s' \<and> tb_zoom s' \<le> 10"
    using Cons.prems(1) by (intro Cons.IH) simp_all
  then show ?case
    using h by (simp add: g zoom_to_eq)
qed

text \<open>
  Claim C7. For every prior zoom, every viewport of height \<open>H\<close> other than zero and every
  \<open>dy\<close>, the zoom gesture stores the prior zoom minus \<open>5 * dy / H\<close>, clamped to
  \<open>[0.25, 10]\<close>; and after any sequence of zoom gestures that starts from a zoom in that
  range, the zoom is in that range. With \<open>H = 800\<close> and \<open>dy = 80\<close> the change is
  \<open>- 0.5\<close> (the witness below).
\<close>

theorem zoom_to_clamped:
  "(vp_height vp \<noteq> 0 \<longrightarrow>
      zoom_to vp x y dx dy s =
        Inr (s\<lparr>tb_zoom := max 0.25 (min 10 (tb_zoom s - 5 * dy / vp_height vp))\<rparr>)) \<and>
   ((\<forall>g\<in>set gs. vp_height (fst g) \<noteq> 0) \<and> 0.25 \<le> tb_zoom s \<and> tb_zoom s \<le> 10 \<longrightarrow>
      (\<exists>s'. zoom_seq gs s = Inr s' \<and> 0.25 \<le> tb_zoom s' \<and> tb_zoom s' \<le> 10))"
  using zoom_to_eq [of vp x y dx dy s] zoom_seq_range [of gs s] by blast

theorem zoom_to_clamped_witness:
  "vp_height (0, 0, 600, 800) \<noteq> 0 \<and>
   zoom_to (0, 0, 600, 800) 0 0 0 80 tb_default = Inr (tb_default\<lparr>tb_zoom := 0.5\<rparr>) \<and>
   0.25 \<le> tb_zoom tb_default \<and> tb_zoom tb_default \<le> 10 \<and>
   zoom_seq [((0, 0, 600, 800), 0, 0, 0, 80), ((0, 0, 600, 800), 0, 0, 0, 80)] tb_default =
     Inr (tb_default\<lparr>tb_zoom := 0.25\<rparr>)"
  using zoom_to_clamped [of "(0, 0, 600, 800)" 0 0 0 80 tb_default
      "[((0, 0, 600, 800), 0, 0, 0, 80), ((0, 0, 600, 800), 0, 0, 0, 80)]"]
  by (simp add: vp_height_def tb_default_def zoom_to_def py_div_def set_zoom_def Let_def)

text \<open>
  Claim C3, at the input \<open>Trackball(0, 0, 100, 0)\<close>: the constructor stores the zoom
  100 and the distance 0, outside \<open>[0.25, 10]\<close> and below 1.
\<close>

theorem init_out_of_range:
  "zoom_of (init 0 0 100 0) = Inr 100 \<and> distance_of (init 0 0 100 0) = Inr 0 \<and>
   \<not> (100 \<le> (10::real)) \<and> \<not> (1 \<le> (0::real))"
  using init_stores [of 0 0 100 0] by (auto simp: zoom_of_def distance_of_def)

section \<open>The orientation getters\<close>

lemma get_orientation_phi_90:
  assumes "init t 90 z d = Inr s"
  shows "get_orientation s = Inl ZeroDivisionError"
proof -
  define s1 where "s1 = sin (0.5 * (t * (pi / 180)))"
  define c1 where "c1 = cos (0.5 * (t * (pi / 180)))"
  have a: "0.5 * (90 * (pi / 180)) = pi / 4" by simp
  have r: "tb_rotation s = [s1 * (sqrt 2 / 2), sqrt 2 / 2 * s1, sqrt 2 / 2 * c1, c1 * (sqrt 2 / 2)]"
    using init_eq [of t 90 z d] assms
    by (auto simp: a sin_45 cos_45 s1_def c1_def)
  have sc: "s1 * s1 + c1 * c1 = 1"
    unfolding s1_def c1_def by (simp flip: power2_eq_square)
  have "sqrt 2 / 2 * s1 * (sqrt 2 / 2 * s1) + sqrt 2 / 2 * c1 * (sqrt 2 / 2 * c1)
          = (sqrt 2 * sqrt 2) / 4 * (s1 * s1 + c1 * c1)"
    by (simp add: algebra_simps)
  also have "\<dots> = 1 / 2" by (simp add: sc)
  finally have "1 - 2 * (sqrt 2 / 2 * s1 * (sqrt 2 / 2 * s1) + sqrt 2 / 2 * c1 * (sqrt 2 / 2 * c1)) = 0"
    by simp
  then show ?thesis
    unfolding get_orientation_def r by (simp add: py_div_def)
qed

text \<open>
  Claim C2, at the input \<open>Trackball(30, 90)\<close>: reading \<open>theta\<close> or \<open>phi\<close> divides by
  \<open>1 - 2 * (q1 * q1 + q2 * q2) = 0\<close> and raises \<open>ZeroDivisionError\<close>.
\<close>

theorem get_orientation_raises:
  "and_then (init 30 90 1 3) get_orientation = Inl ZeroDivisionError"
proof -
  obtain s where s: "init 30 90 1 3 = Inr s"
    using init_stores [of 30 90 1 3] by blast
  show ?thesis
    by (simp add: s get_orientation_phi_90 [OF s])
qed

section \<open>The drag gesture\<close>

text \<open>
  Claim C4. Every drag call that gets a viewport of non-zero width and height returns; it
  computes the incremental rotation \<open>q\<close> from the normalised pointer motion, forms
  \<open>r = add(q, current)\<close> with the incremental quaternion first, sets the third component
  of \<open>r\<close> to 0 and stores the result, normalised when the drag counter has passed 97.
  After the call the third component of the stored rotation is 0.
\<close>

theorem drag_to_composes_and_zeroes:
  assumes "vp_width vp \<noteq> 0" and "vp_height vp \<noteq> 0" and "length (tb_rotation s) = 4"
  shows "\<exists>q r s'.
     rotate_tb ((x * 2 - vp_width vp) / vp_width vp) ((y * 2 - vp_height vp) / vp_height vp)
               (2 * dx / vp_width vp) (2 * dy / vp_height vp) = Inr q \<and>
     q_add q (tb_rotation s) = Inr r \<and>
     drag_to vp x y dx dy s = Inr s' \<and>
     (if tb_count s + 1 > RENORMCOUNT then q_normalize (r[2 := 0]) = Inr (tb_rotation s')
      else tb_rotation s' = r[2 := 0]) \<and>
     length (tb_rotation s') = 4 \<and> tb_rotation s' ! 2 = 0"
proof -
  obtain q a b c d where
    q: "rotate_tb ((x * 2 - vp_width vp) / vp_width vp) ((y * 2 - vp_height vp) / vp_height vp)
               (2 * dx / vp_width vp) (2 * dy / vp_height vp) = Inr q" and
    r: "q_add q (tb_rotation s) = Inr [a, b, c, d]" and
    u: "drag_to vp x y dx dy s =
       (if tb_count s + 1 > RENORMCOUNT
        then and_then (q_normalize [a, b, 0, d]) (\<lambda>r.
             and_then (q_rotmatrix r) (\<lambda>m.
             Inr (s\<lparr>tb_rotation := r, tb_count := 0, tb_matrix := Some m\<rparr>)))
        else and_then (q_rotmatrix [a, b, 0, d]) (\<lambda>m.
             Inr (s\<lparr>tb_rotation := [a, b, 0, d], tb_count := tb_count s + 1,
                    tb_matrix := Some m\<rparr>)))"
    using drag_to_unfold [OF assms, of x y dx dy] by blast
  have "\<exists>s'. drag_to vp x y dx dy s = Inr s' \<and>
     (if tb_count s + 1 > RENORMCOUNT then q_normalize ([a, b, c, d][2 := 0]) = Inr (tb_rotation s')
      else tb_rotation s' = [a, b, c, d][2 := 0]) \<and>
     length (tb_rotation s') = 4 \<and> tb_rotation s' ! 2 = 0"
    unfolding u by (simp add: q_normalize_4 q_rotmatrix_4)
  then show ?thesis
    using q r by blast
qed

theorem drag_to_composes_and_zeroes_witness:
  "vp_width (0, 0, 1000, 1250) \<noteq> 0 \<and> vp_height (0, 0, 1000, 1250) \<noteq> 0 \<and>
   length (tb_rotation tb_default) = 4 \<and>
   rotation_of (drag_to (0, 0, 1000, 1250) 740 737 (- 480) 0 tb_default) =
     Inr [0, 0.576, 0, 0.8]"
proof -
  have h: "vp_width (0, 0, 1000, 1250) \<noteq> 0" "vp_height (0, 0, 1000, 1250) \<noteq> 0"
    "length (tb_rotation tb_default) = 4"
    by (simp_all add: vp_width_def vp_height_def tb_default_def)
  have "drag_to (0, 0, 1000, 1250) 740 737 (- 480) 0 tb_default =
     Inr (tb_default\<lparr>tb_rotation := [0, 0.576, 0, 0.8], tb_count := tb_count tb_default + 1,
            tb_matrix := Some [0.336448, 0, 0.9216, 0,  0, 1, 0, 0,  - 0.9216, 0, 0.336448, 0,  0, 0, 0, 1]\<rparr>)"
    by (rule drag_example) (simp_all add: tb_default_def RENORMCOUNT_def)
  then have "rotation_of (drag_to (0, 0, 1000, 1250) 740 737 (- 480) 0 tb_default) =
     Inr [0, 0.576, 0, 0.8]"
    by (simp add: rotation_of_def)
  then show ?thesis
    using h drag_to_composes_and_zeroes [OF h, of 740 737 "- 480" 0] by blast
qed

text \<open>
  Claim C1, as stated, fails: \<open>Trackball(0, 90)\<close> holds the rotation
  \<open>(0, 0, sqrt 2 / 2, sqrt 2 / 2)\<close>, and a drag with zero deltas turns it into
  \<open>(0, 0, 0, sqrt 2 / 2)\<close>.
\<close>

theorem drag_to_zero_delta_changes_rotation:
  "rotation_of (init 0 90 1 3) = Inr [0, 0, sqrt 2 / 2, sqrt 2 / 2] \<and>
   rotation_of (and_then (init 0 90 1 3) (drag_to (0, 0, 1000, 1250) 500 625 0 0)) =
     Inr [0, 0, 0, sqrt 2 / 2]"
proof -
  obtain m where i: "init 0 90 1 3 =
     Inr \<lparr>tb_rotation = [0, 0, sqrt 2 / 2, sqrt 2 / 2],
          tb_zoom = 1, tb_distance = 3, tb_count = 0, tb_matrix = Some m,
          tb_theta = 0, tb_phi = 90, tb_x = 0, tb_y = 0\<rparr>"
    using init_0_90 by blast
  have h: "vp_width (0, 0, 1000, 1250) \<noteq> 0" "vp_height (0, 0, 1000, 1250) \<noteq> 0"
    by (simp_all add: vp_width_def vp_height_def)
  have r: "tb_rotation \<lparr>tb_rotation = [0, 0, sqrt 2 / 2, sqrt 2 / 2],
          tb_zoom = 1, tb_distance = 3, tb_count = 0, tb_matrix = Some m,
          tb_theta = 0, tb_phi = 90, tb_x = 0, tb_y = 0\<rparr> = [0, 0, sqrt 2 / 2, sqrt 2 / 2]"
    by simp
  show ?thesis
    unfolding i and_then_Inr drag_to_idle [OF h r]
    by (simp add: rotation_of_def q_rotmatrix_4 RENORMCOUNT_def)
qed

text \<open>
  Claim C1, amended. For every trackball state with a rotation of four components, every
  position and every viewport of non-zero width and height, a drag with zero deltas
  returns, composes the identity quaternion, sets the third component of the rotation to
  0 and leaves the other three as they are, and increments the drag counter; on the call
  on which the counter passes 97 the result is normalised as well and the counter is 0.
  So the rotation is unchanged when its third component is 0 already and no
  renormalisation is due.
\<close>

theorem drag_to_zero_delta:
  assumes "vp_width vp \<noteq> 0" and "vp_height vp \<noteq> 0" and "length (tb_rotation s) = 4"
  shows "\<exists>s'. drag_to vp x y 0 0 s = Inr s' \<and>
     (if tb_count s + 1 > RENORMCOUNT
      then q_normalize ((tb_rotation s)[2 := 0]) = Inr (tb_rotation s') \<and> tb_count s' = 0
      else tb_rotation s' = (tb_rotation s)[2 := 0] \<and> tb_count s' = tb_count s + 1) \<and>
     (tb_rotation s ! 2 = 0 \<and> tb_count s + 1 \<le> RENORMCOUNT \<longrightarrow>
        tb_rotation s' = tb_rotation s)"
proof -
  obtain a b c d where r: "tb_rotation s = [a, b, c, d]"
    using len4 [OF assms(3)] by blast
  show ?thesis
    unfolding drag_to_idle [OF assms(1,2) r] r
    by (simp add: q_normalize_4 q_rotmatrix_4)
qed

theorem drag_to_zero_delta_witness:
  "vp_width (0, 0, 1000, 1250) \<noteq> 0 \<and> vp_height (0, 0, 1000, 1250) \<noteq> 0 \<and>
   length (tb_rotation tb_default) = 4 \<and>
   tb_rotation tb_default ! 2 = 0 \<and> tb_count tb_default + 1 \<le> RENORMCOUNT \<and>
   drag_to (0, 0, 1000, 1250) 500 625 0 0 tb_default = Inr (tb_default\<lparr>tb_count := 1\<rparr>)"
proof -
  have h: "vp_width (0, 0, 1000, 1250) \<noteq> 0" "vp_height (0, 0, 1000, 1250) \<noteq> 0"
    "length (tb_rotation tb_default) = 4"
    by (simp_all add: vp_width_def vp_height_def tb_default_def)
  have r: "tb_rotation tb_default = [0, 0, 0, 1]"
    by (simp add: tb_default_def)
  have "drag_to (0, 0, 1000, 1250) 500 625 0 0 tb_default = Inr (tb_default\<lparr>tb_count := 1\<rparr>)"
    unfolding drag_to_idle [OF h(1,2) r]
    by (simp add: q_rotmatrix_4 RENORMCOUNT_def tb_default_def)
  then show ?thesis
    using h drag_to_zero_delta [OF h, of 500 625]
    by (simp add: tb_default_def RENORMCOUNT_def)
qed

text \<open>
  Claim C6, as stated, fails for the calls after a renormalisation: from \<open>Trackball()\<close>,
  98 drags with zero deltas and then one drag across the ball leave the rotation
  \<open>(0, 0.576, 0, 0.8)\<close>, of length \<open>sqrt 0.971776\<close>, below 0.99.
\<close>

theorem drag_99_not_unit:
  "rotation_of (and_then (init 0 0 1 3)
      (drag_seq (replicate 98 ((0, 0, 1000, 1250), 500, 625, 0, 0) @
                 [((0, 0, 1000, 1250), 740, 737, - 480, 0)]))) = Inr [0, 0.576, 0, 0.8] \<and>
   q_length [0, 0.576, 0, 0.8] = Inr (sqrt 0.971776) \<and> sqrt 0.971776 < 0.99"
proof -
  have d: "tb_default\<lparr>tb_count := 0\<rparr> = tb_default"
    by (simp add: tb_default_def)
  have "drag_seq (replicate 98 ((0, 0, 1000, 1250), 500, 625, 0, 0)) (tb_default\<lparr>tb_count := 0\<rparr>)
          = Inr (tb_default\<lparr>tb_count := (0 + int 98) mod 98\<rparr>)"
    by (rule drag_seq_idle) simp_all
  then have s98: "drag_seq (replicate 98 ((0, 0, 1000, 1250), 500, 625, 0, 0)) tb_default
          = Inr tb_default"
    by (simp add: d)
  have "drag_to (0, 0, 1000, 1250) 740 737 (- 480) 0 tb_default =
     Inr (tb_default\<lparr>tb_rotation := [0, 0.576, 0, 0.8], tb_count := tb_count tb_default + 1,
            tb_matrix := Some [0.336448, 0, 0.9216, 0,  0, 1, 0, 0,  - 0.9216, 0, 0.336448, 0,  0, 0, 0, 1]\<rparr>)"
    by (rule drag_example) (simp_all add: tb_default_def RENORMCOUNT_def)
  then have a: "rotation_of (and_then (init 0 0 1 3)
      (drag_seq (replicate 98 ((0, 0, 1000, 1250), 500, 625, 0, 0) @
                 [((0, 0, 1000, 1250), 740, 737, - 480, 0)]))) = Inr [0, 0.576, 0, 0.8]"
    unfolding init_default and_then_Inr drag_seq_append s98
    by (simp add: rotation_of_def)
  have b: "q_length [0, 0.576, 0, 0.8] = Inr (sqrt 0.971776)"
    by (simp add: q_length_4)
  have c: "sqrt 0.971776 < (0.99::real)"
    by (rule real_less_lsqrt) (simp_all add: power2_eq_square)
  from a b c show ?thesis by blast
qed

text \<open>
  Claim C6, amended. Every drag call that gets a viewport of non-zero size and a rotation
  of four components returns and increments the drag counter; on the call on which the
  counter exceeds 97 the rotation is normalised and the counter is set to 0, so the
  counter is at most 97 after every call. Immediately after such a call, and so after
  the 98th drag call on a trackball whose counter was 0, the rotation has length 1, or
  is the zero quaternion, which \<open>normalize\<close> returns unchanged. Nothing is said of the
  length after the other calls.
\<close>

theorem drag_to_renormalizes:
  "(vp_width vp \<noteq> 0 \<and> vp_height vp \<noteq> 0 \<and> length (tb_rotation s) = 4 \<longrightarrow>
      (\<exists>s'. drag_to vp x y dx dy s = Inr s' \<and>
         tb_count s' = (if tb_count s + 1 > RENORMCOUNT then 0 else tb_count s + 1) \<and>
         tb_count s' \<le> RENORMCOUNT \<and>
         (tb_count s + 1 > RENORMCOUNT \<longrightarrow>
            q_length (tb_rotation s') = Inr 1 \<or> tb_rotation s' = [0, 0, 0, 0]))) \<and>
   ((\<forall>g\<in>set gs. vp_width (fst g) \<noteq> 0 \<and> vp_height (fst g) \<noteq> 0) \<and> length gs = 98 \<and>
    tb_count t = 0 \<and> length (tb_rotation t) = 4 \<longrightarrow>
      (\<exists>t'. drag_seq gs t = Inr t' \<and> tb_count t' = 0 \<and>
         (q_length (tb_rotation t') = Inr 1 \<or> tb_rotation t' = [0, 0, 0, 0])))"
proof -
  have a: "\<exists>s'. drag_to vp x y dx dy s = Inr s' \<and>
         tb_count s' = (if tb_count s + 1 > RENORMCOUNT then 0 else tb_count s + 1) \<and>
         tb_count s' \<le> RENORMCOUNT \<and>
         (tb_count s + 1 > RENORMCOUNT \<longrightarrow>
            q_length (tb_rotation s') = Inr 1 \<or> tb_rotation s' = [0, 0, 0, 0])"
    if h: "vp_width vp \<noteq> 0" "vp_height vp \<noteq> 0" "length (tb_rotation s) = 4"
  proof -
    obtain s' where s': "drag_to vp x y dx dy s = Inr s'"
      "tb_count s' = (if tb_count s + 1 > RENORMCOUNT then 0 else tb_count s + 1)"
      "tb_count s + 1 > RENORMCOUNT \<longrightarrow>
         q_length (tb_rotation s') = Inr 1 \<or> tb_rotation s' = [0, 0, 0, 0]"
      using drag_to_step [OF h, of x y dx dy] by blast
    have "tb_count s' \<le> RENORMCOUNT"
      using s'(2) by (simp add: RENORMCOUNT_def split: if_splits)
    then show ?thesis using s' by blast
  qed
  show ?thesis
    using a drag_seq_98 [of gs t] by blast
qed

theorem drag_to_renormalizes_witness:
  "vp_width (0, 0, 1000, 1250) \<noteq> 0 \<and> vp_height (0, 0, 1000, 1250) \<noteq> 0 \<and>
   length (tb_rotation (tb_default\<lparr>tb_count := 97\<rparr>)) = 4 \<and>
   tb_count (tb_default\<lparr>tb_count := 97\<rparr>) + 1 > RENORMCOUNT \<and>
   drag_to (0, 0, 1000, 1250) 500 625 0 0 (tb_default\<lparr>tb_count := 97\<rparr>) = Inr tb_default \<and>
   length (replicate 98 ((0, 0, 1000, 1250) :: viewport, 500 :: real, 625 :: real, 0 :: real, 0 :: real)) = 98 \<and>
   tb_count tb_default = 0 \<and> length (tb_rotation tb_default) = 4 \<and>
   drag_seq (replicate 98 ((0, 0, 1000, 1250), 500, 625, 0, 0)) tb_default = Inr tb_default \<and>
   q_length (tb_rotation tb_default) = Inr 1"
proof -
  have d: "tb_default\<lparr>tb_count := 0\<rparr> = tb_default"
    by (simp add: tb_default_def)
  have h: "vp_width (0, 0, 1000, 1250) \<noteq> 0" "vp_height (0, 0, 1000, 1250) \<noteq> 0"
    "length (tb_rotation (tb_default\<lparr>tb_count := 97\<rparr>)) = 4"
    "tb_count (tb_default\<lparr>tb_count := 97\<rparr>) + 1 > RENORMCOUNT"
    "tb_count tb_default = 0" "length (tb_rotation tb_default) = 4"
    "q_length (tb_rotation tb_default) = Inr 1"
    by (simp_all add: vp_width_def vp_height_def tb_default_def RENORMCOUNT_def q_length_4)
  have g: "\<forall>g\<in>set (replicate 98 ((0, 0, 1000, 1250) :: viewport, 500 :: real, 625 :: real,
      0 :: real, 0 :: real)). vp_width (fst g) \<noteq> 0 \<and> vp_height (fst g) \<noteq> 0"
    by (simp add: vp_width_def vp_height_def)
  have l: "length (replicate 98 ((0, 0, 1000, 1250) :: viewport, 500 :: real, 625 :: real,
      0 :: real, 0 :: real)) = 98"
    by simp
  have one: "drag_to (0, 0, 1000, 1250) 500 625 0 0 (tb_default\<lparr>tb_count := 97\<rparr>) = Inr tb_default"
    using drag_idle_default [of 97] by (simp add: d)
  have "drag_seq (replicate 98 ((0, 0, 1000, 1250), 500, 625, 0, 0)) (tb_default\<lparr>tb_count := 0\<rparr>)
          = Inr (tb_default\<lparr>tb_count := (0 + int 98) mod 98\<rparr>)"
    by (rule drag_seq_idle) simp_all
  then have many: "drag_seq (replicate 98 ((0, 0, 1000, 1250), 500, 625, 0, 0)) tb_default
          = Inr tb_default"
    by (simp add: d)
  note t = drag_to_renormalizes [of "(0, 0, 1000, 1250)" "tb_default\<lparr>tb_count := 97\<rparr>" 500 625 0 0
      "replicate 98 ((0, 0, 1000, 1250), 500, 625, 0, 0)" tb_default]
  show ?thesis
    using t h g l one many by blast
qed

section \<open>The constructor\<close>

lemma and_then_eq_Inr: "and_then m f = Inr b \<longleftrightarrow> (\<exists>a. m = Inr a \<and> f a = Inr b)"
  by (cases m) simp_all

lemma set_orientation_keeps:
  "set_orientation t p s = Inr s' \<Longrightarrow> tb_zoom s' = tb_zoom s \<and> tb_distance s' = tb_distance s"
  using set_orientation_eq [of t p s] by auto

lemma drag_to_keeps:
  "drag_to vp x y dx dy s = Inr s' \<Longrightarrow> tb_zoom s' = tb_zoom s \<and> tb_distance s' = tb_distance s"
  by (auto simp: drag_to_def Let_def and_then_eq_Inr split: if_splits)

lemma get_orientation_keeps:
  "get_theta s = Inr (v, s') \<Longrightarrow> tb_zoom s' = tb_zoom s \<and> tb_distance s' = tb_distance s"
  "get_phi s = Inr (w, s'') \<Longrightarrow> tb_zoom s'' = tb_zoom s \<and> tb_distance s'' = tb_distance s"
  by (auto simp: get_theta_def get_phi_def Let_def and_then_eq_Inr)

lemma set_angle_keeps:
  "set_theta a s = Inr s' \<Longrightarrow> tb_zoom s' = tb_zoom s \<and> tb_distance s' = tb_distance s"
  "set_phi b s = Inr s'' \<Longrightarrow> tb_zoom s'' = tb_zoom s \<and> tb_distance s'' = tb_distance s"
  by (auto simp: set_theta_def set_phi_def and_then_eq_Inr dest: set_orientation_keeps)

lemma set_orientation_default: "set_orientation 0 0 tb_default = Inr tb_default"
  by (simp add: set_orientation_def Let_def q_add_4 q_rotmatrix_4 tb_default_def)

lemma py_fmod_0: "py_fmod 0 360 = Inr 0"
  by (simp add: py_fmod_def)

lemma get_orientation_default: "get_orientation tb_default = Inr (0, 0)"
  by (simp add: get_orientation_def tb_default_def py_div_def)

text \<open>
  Claim C10. The constructor stores its zoom and distance arguments as they are, without
  clamping: \<open>Trackball(0, 0, 100, 3)\<close> has the zoom 100 and \<open>Trackball(0, 0, 1, 0)\<close> the
  distance 0. A drag, a pan, the getters and the setters of \<open>theta\<close> and \<open>phi\<close> change
  neither value; the zoom gesture and the zoom setter leave the distance, and the
  distance setter leaves the zoom.
\<close>

theorem init_stores_verbatim:
  "(\<exists>s0. init theta phi zoom distance = Inr s0 \<and> tb_zoom s0 = zoom \<and> tb_distance s0 = distance) \<and>
   zoom_of (init 0 0 100 3) = Inr 100 \<and> distance_of (init 0 0 1 0) = Inr 0 \<and>
   (drag_to vp x y dx dy s = Inr s1 \<longrightarrow> tb_zoom s1 = tb_zoom s \<and> tb_distance s1 = tb_distance s) \<and>
   tb_zoom (pan_to x y dx dy s) = tb_zoom s \<and> tb_distance (pan_to x y dx dy s) = tb_distance s \<and>
   (set_theta a s = Inr s2 \<longrightarrow> tb_zoom s2 = tb_zoom s \<and> tb_distance s2 = tb_distance s) \<and>
   (set_phi b s = Inr s3 \<longrightarrow> tb_zoom s3 = tb_zoom s \<and> tb_distance s3 = tb_distance s) \<and>
   (get_theta s = Inr (v, s4) \<longrightarrow> tb_zoom s4 = tb_zoom s \<and> tb_distance s4 = tb_distance s) \<and>
   (get_phi s = Inr (w, s5) \<longrightarrow> tb_zoom s5 = tb_zoom s \<and> tb_distance s5 = tb_distance s) \<and>
   (zoom_to vq xq yq dxq dyq s = Inr s6 \<longrightarrow> tb_distance s6 = tb_distance s) \<and>
   tb_distance (set_zoom z s) = tb_distance s \<and> tb_zoom (set_distance d s) = tb_zoom s"
proof -
  have a: "zoom_of (init 0 0 100 3) = Inr 100" "distance_of (init 0 0 1 0) = Inr 0"
    using init_stores [of 0 0 100 3] init_stores [of 0 0 1 0]
    by (auto simp: zoom_of_def distance_of_def)
  have b: "tb_zoom (pan_to x y dx dy s) = tb_zoom s" "tb_distance (pan_to x y dx dy s) = tb_distance s"
    "tb_distance (set_zoom z s) = tb_distance s" "tb_zoom (set_distance d s) = tb_zoom s"
    by (simp_all add: pan_to_def set_zoom_def set_distance_def Let_def)
  have c: "zoom_to vq xq yq dxq dyq s = Inr s6 \<longrightarrow> tb_distance s6 = tb_distance s"
    by (auto simp: zoom_to_def Let_def and_then_eq_Inr set_zoom_def)
  show ?thesis
    using init_stores [of theta phi zoom distance] a b c drag_to_keeps [of vp x y dx dy s s1]
      set_angle_keeps(1) [of a s s2] set_angle_keeps(2) [of b s s3]
      get_orientation_keeps(1) [of s v s4] get_orientation_keeps(2) [of s w s5]
    by blast
qed

theorem init_stores_verbatim_witness:
  "drag_to (0, 0, 1000, 1250) 500 625 0 0 tb_default = Inr (tb_default\<lparr>tb_count := 1\<rparr>) \<and>
   set_theta 0 tb_default = Inr tb_default \<and> set_phi 0 tb_default = Inr tb_default \<and>
   get_theta tb_default = Inr (0, tb_default) \<and> get_phi tb_default = Inr (0, tb_default) \<and>
   zoom_to (0, 0, 1000, 1250) 500 625 0 125 tb_default = Inr (tb_default\<lparr>tb_zoom := 0.5\<rparr>) \<and>
   zoom_of (init 0 0 100 3) = Inr 100 \<and> distance_of (init 0 0 1 0) = Inr 0 \<and>
   tb_zoom (tb_default\<lparr>tb_count := 1\<rparr>) = tb_zoom tb_default \<and>
   tb_distance (tb_default\<lparr>tb_zoom := 0.5\<rparr>) = tb_distance tb_default"
proof -
  have d: "drag_to (0, 0, 1000, 1250) 500 625 0 0 tb_default = Inr (tb_default\<lparr>tb_count := 1\<rparr>)"
    using drag_idle_default [of 0] by (simp add: tb_default_def)
  have t: "set_theta 0 tb_default = Inr tb_default" "set_phi 0 tb_default = Inr tb_default"
    by (simp_all add: set_theta_def set_phi_def py_fmod_0 set_orientation_default)
       (simp_all add: tb_default_def py_fmod_0 set_orientation_default [unfolded tb_default_def])
  have e: "tb_default\<lparr>tb_theta := 0, tb_phi := 0\<rparr> = tb_default"
    by (simp add: tb_default_def)
  have g: "get_theta tb_default = Inr (0, tb_default)" "get_phi tb_default = Inr (0, tb_default)"
    by (simp_all add: get_theta_def get_phi_def get_orientation_default Let_def e)
  have z: "zoom_to (0, 0, 1000, 1250) 500 625 0 125 tb_default = Inr (tb_default\<lparr>tb_zoom := 0.5\<rparr>)"
    by (simp add: zoom_to_def Let_def py_div_def vp_height_def set_zoom_def tb_default_def)
  note w = init_stores_verbatim [where theta = 0 and phi = 0 and zoom = 100 and distance = 0
      and vp = "(0, 0, 1000, 1250)" and x = 500 and y = 625 and dx = 0 and dy = 0
      and s = tb_default and ?s1.0 = "tb_default\<lparr>tb_count := 1\<rparr>"
      and a = 0 and ?s2.0 = tb_default and b = 0 and ?s3.0 = tb_default
      and v = 0 and ?s4.0 = tb_default and w = 0 and ?s5.0 = tb_default
      and vq = "(0, 0, 1000, 1250)" and xq = 500 and yq = 625 and dxq = 0 and dyq = 125
      and ?s6.0 = "tb_default\<lparr>tb_zoom := 0.5\<rparr>" and z = 100 and d = 0]
  have k: "tb_zoom (tb_default\<lparr>tb_count := 1\<rparr>) = tb_zoom tb_default"
    using w d by blast
  have "tb_distance (tb_default\<lparr>tb_zoom := 0.5\<rparr>) = tb_distance tb_default"
    using w z by blast
  then show ?thesis
    using w d t g z k by blast
qed

end
